theory Spec2Isabelle
  imports Main "HOL-Library.Word" "HOL-Library.Sublist"
begin

section \<open>The sequence counter (pkg/drone, type sequence)\<close>

text \<open>
  The Go type is a struct embedding a \<open>sync.Mutex\<close> next to one \<open>int\<close> field called
  \<open>value\<close>.  Go's \<open>int\<close> is 64 bits wide on the platforms the tool is built for, so the
  field is a 64-bit word: \<open>+\<close> wraps, and \<open>sint\<close> reads the signed number the program sees.
  The mutex is one boolean.  In a sequential run, \<open>Lock\<close> on a mutex that is already held
  never returns and \<open>Unlock\<close> on a free one is a fatal runtime error; both are the value
  \<open>None\<close>.  The field \<open>value\<close> is called \<open>seq_value\<close> and the method \<open>next\<close> is called
  \<open>seq_next\<close>, since both words are reserved in Isabelle.
\<close>

record sequence =
  locked :: bool
  seq_value :: "64 word"

definition new_sequence :: sequence where
  "new_sequence = \<lparr>locked = False, seq_value = 0\<rparr>"

definition Lock :: "sequence \<Rightarrow> sequence option" where
  "Lock s = (if locked s then None else Some (s\<lparr>locked := True\<rparr>))"

definition Unlock :: "sequence \<Rightarrow> sequence option" where
  "Unlock s = (if locked s then Some (s\<lparr>locked := False\<rparr>) else None)"

text \<open>\<open>s.Lock(); s.value++; i := s.value; s.Unlock(); return i\<close>\<close>

definition seq_next :: "sequence \<Rightarrow> (64 word \<times> sequence) option" where
  "seq_next s =
     (case Lock s of
        None \<Rightarrow> None
      | Some s1 \<Rightarrow>
          (let s2 = s1\<lparr>seq_value := seq_value s1 + 1\<rparr>;
               i = seq_value s2
           in case Unlock s2 of None \<Rightarrow> None | Some s3 \<Rightarrow> Some (i, s3)))"

text \<open>\<open>s.Lock(); i := s.value; s.Unlock(); return i\<close>\<close>

definition curr :: "sequence \<Rightarrow> (64 word \<times> sequence) option" where
  "curr s =
     (case Lock s of
        None \<Rightarrow> None
      | Some s1 \<Rightarrow>
          (let i = seq_value s1
           in case Unlock s1 of None \<Rightarrow> None | Some s2 \<Rightarrow> Some (i, s2)))"

text \<open>
  A caller that invokes \<open>next\<close> \<open>n\<close> times in a row on one counter, keeping the returned
  values in call order.
\<close>

fun next_calls :: "nat \<Rightarrow> sequence \<Rightarrow> (64 word list \<times> sequence) option" where
  "next_calls 0 s = Some ([], s)"
| "next_calls (Suc n) s =
     (case seq_next s of
        None \<Rightarrow> None
      | Some (i, s') \<Rightarrow>
          (case next_calls n s' of
             None \<Rightarrow> None
           | Some (rest, s'') \<Rightarrow> Some (i # rest, s'')))"

section \<open>Compiled steps, run policies and the stage roster\<close>

text \<open>
  \<open>runtime.RunPolicy\<close> and \<open>runtime.ErrPolicy\<close> are enumerations of the runner library,
  listed in the library's order.  A compiled step (\<open>engine.Step\<close>) is reduced to the four
  fields this program reads or writes.  The compiler hands over a slice of pointers to
  distinct steps, so the slice is a list of records and an assignment through a pointer
  is an update of one list element.
\<close>

datatype RunPolicy = RunOnSuccess | RunOnFailure | RunAlways | RunNever

datatype ErrPolicy = ErrFail | ErrFailFast | ErrIgnore

record Step =
  Name :: string
  Image :: string
  RunPolicy :: RunPolicy
  ErrPolicy :: ErrPolicy

text \<open>
  A roster entry (\<open>drone.Step\<close>); its field \<open>Name\<close> is called \<open>StepName\<close> here.
  Its field \<open>ErrIgnore\<close> hides the policy of the same name, which is written
  \<open>ErrPolicy.ErrIgnore\<close> from here on.
  Statuses are the strings of the client library.
\<close>

record drone_Step =
  StageID :: int
  Number :: int
  StepName :: string
  Status :: string
  ErrIgnore :: bool

definition StatusPending :: string where "StatusPending = ''pending''"
definition StatusPassing :: string where "StatusPassing = ''success''"
definition StatusFailing :: string where "StatusFailing = ''failure''"
definition StatusKilled :: string where "StatusKilled = ''killed''"
definition StatusError :: string where "StatusError = ''error''"

section \<open>Step selection (exec, the include, exclude and resume-at loops)\<close>

text \<open>
  The include loop: \<open>clone\<close> is passed over; a step whose name is found among the
  included names is passed over (\<open>continue I\<close>); any other step is set to \<open>RunNever\<close>.
\<close>

definition include_step :: "string list \<Rightarrow> Step \<Rightarrow> Step" where
  "include_step incl step =
     (if Name step = ''clone'' then step
      else if Name step \<in> set incl then step
      else step\<lparr>RunPolicy := RunNever\<rparr>)"

definition include_phase :: "string list \<Rightarrow> Step list \<Rightarrow> Step list" where
  "include_phase incl steps = (if 0 < length incl then map (include_step incl) steps else steps)"

text \<open>
  The exclude loop: \<open>clone\<close> is passed over; a step whose name is found among the excluded
  names is set to \<open>RunNever\<close> (and the search stops, \<open>continue E\<close>).
\<close>

definition exclude_step :: "string list \<Rightarrow> Step \<Rightarrow> Step" where
  "exclude_step excl step =
     (if Name step = ''clone'' then step
      else if Name step \<in> set excl then step\<lparr>RunPolicy := RunNever\<rparr>
      else step)"

definition exclude_phase :: "string list \<Rightarrow> Step list \<Rightarrow> Step list" where
  "exclude_phase excl steps = (if 0 < length excl then map (exclude_step excl) steps else steps)"

text \<open>
  The resume-at loop.  Its inner loop walks all excluded names (its \<open>continue\<close> only moves
  to the next name) and assigns \<open>RunNever\<close> at every match.  The outer loop leaves at the
  first step that carries the resume-at name, before looking at anything else.
\<close>

primrec mark_excluded :: "string list \<Rightarrow> Step \<Rightarrow> Step" where
  "mark_excluded [] step = step"
| "mark_excluded (name # names) step =
     mark_excluded names (if Name step = name then step\<lparr>RunPolicy := RunNever\<rparr> else step)"

fun resume_loop :: "string \<Rightarrow> string list \<Rightarrow> Step list \<Rightarrow> Step list" where
  "resume_loop resumeAt excl [] = []"
| "resume_loop resumeAt excl (step # rest) =
     (if Name step = resumeAt then step # rest
      else if Name step = ''clone'' then step # resume_loop resumeAt excl rest
      else mark_excluded excl step # resume_loop resumeAt excl rest)"

definition resume_phase :: "string \<Rightarrow> string list \<Rightarrow> Step list \<Rightarrow> Step list" where
  "resume_phase resumeAt excl steps =
     (if resumeAt \<noteq> [] then resume_loop resumeAt excl steps else steps)"

text \<open>The three loops in the order \<open>exec\<close> runs them.\<close>

definition select_steps :: "string list \<Rightarrow> string list \<Rightarrow> string \<Rightarrow> Step list \<Rightarrow> Step list" where
  "select_steps incl excl resumeAt steps =
     resume_phase resumeAt excl (exclude_phase excl (include_phase incl steps))"

text \<open>
  The roster loop: a step set to \<open>RunNever\<close> is passed over; every other step is appended
  to \<open>commy.Stage.Steps\<close> with the number \<open>len(commy.Stage.Steps) + 1\<close>.  The stage
  identifier and the roster the stage starts with come from the caller.
\<close>

fun roster_loop :: "int \<Rightarrow> drone_Step list \<Rightarrow> Step list \<Rightarrow> drone_Step list" where
  "roster_loop sid roster [] = roster"
| "roster_loop sid roster (step # rest) =
     (if RunPolicy step = RunNever then roster_loop sid roster rest
      else roster_loop sid
             (roster @ [\<lparr>StageID = sid, Number = int (length roster) + 1, StepName = Name step,
                         Status = StatusPending, ErrIgnore = (ErrPolicy step = ErrPolicy.ErrIgnore)\<rparr>])
             rest)"

section \<open>Errors\<close>

text \<open>
  Go errors and panics are values.  \<open>NilDereference\<close> is the runtime panic of a field
  access through a nil pointer; the others are the errors of the collaborators.
\<close>

datatype error = NilDereference | WriteError | CreateError | EncodeError | LookupError | ExecError

section \<open>Lines of a write (unnamed/part_000, function split)\<close>

text \<open>
  A Go string is a sequence of bytes, here a \<open>char list\<close>; the line terminator is the one
  byte \<open>\<newline>\<close>.  \<open>strings.HasSuffix\<close>, \<open>strings.TrimSuffix\<close> and \<open>strings.Split\<close> belong to
  Go's standard library and are written out from its documentation.  \<open>Split\<close> cuts at every
  occurrence of the separator, scanning from the left and not overlapping; for the empty
  separator Go cuts after every UTF-8 sequence, which this program never asks for and which
  is given here as a cut after every byte.
\<close>

definition HasSuffix :: "string \<Rightarrow> string \<Rightarrow> bool" where
  "HasSuffix s sfx = (length sfx \<le> length s \<and> drop (length s - length sfx) s = sfx)"

definition TrimSuffix :: "string \<Rightarrow> string \<Rightarrow> string" where
  "TrimSuffix s sfx = (if HasSuffix s sfx then take (length s - length sfx) s else s)"

function split_from :: "string \<Rightarrow> string \<Rightarrow> string \<Rightarrow> string list" where
  "split_from sep cur [] = [rev cur]"
| "split_from sep cur (x # xs) =
     (if sep \<noteq> [] \<and> prefix sep (x # xs)
      then rev cur # split_from sep [] (drop (length sep) (x # xs))
      else split_from sep (x # cur) xs)"
  by pat_completeness auto
termination
  by (relation "measure (\<lambda>(sep, cur, rest). length rest)") auto

definition Split :: "string \<Rightarrow> string \<Rightarrow> string list" where
  "Split s sep = (if sep = [] then map (\<lambda>c. [c]) s else split_from sep [] s)"

text \<open>\<open>s := string(b); s = strings.TrimSuffix(s, "\n"); return strings.Split(s, "\n")\<close>\<close>

definition split :: "string \<Rightarrow> string list" where
  "split b = Split (TrimSuffix b ''\<newline>'') ''\<newline>''"

section \<open>The log file, the streamer and the per-step sink\<close>

text \<open>
  A record handed to the file writer is a Go map from field names to values of any type;
  the values that occur are integers and strings.
\<close>

datatype json_value = JInt int | JString string

type_synonym log_entry = "string \<rightharpoonup> json_value"

text \<open>
  \<open>jsons.FileWriter\<close> is a collaborator: \<open>Add\<close> appends one record to the file or returns an
  error and appends nothing.  The file is the list of the records appended so far.  Whether
  an append succeeds is decided outside the program; \<open>ok\<close> is that decision, given the file
  and the record.
\<close>

record FileWriter =
  entries :: "log_entry list"

definition Add :: "(log_entry list \<Rightarrow> log_entry \<Rightarrow> bool) \<Rightarrow> FileWriter \<Rightarrow> log_entry \<Rightarrow> error + FileWriter" where
  "Add ok fw v =
     (if ok (entries fw) v then Inr (fw\<lparr>entries := entries fw @ [v]\<rparr>) else Inl WriteError)"

text \<open>
  The streamer owns two counters, the name of the log file and the writer.  A sink
  (\<open>jsonlogger\<close>) has a name and a number of its own; its \<open>writer\<close> and \<open>seq\<close> fields are
  copies of the streamer's pointers, so they are the streamer's writer and counter, and a
  method of the sink takes and returns the streamer.
\<close>

record jSONFileStreamer =
  seq :: sequence
  col :: sequence
  logFile :: string
  writer :: FileWriter

record jsonlogger =
  name :: string
  number :: int

text \<open>The map literal \<open>Write\<close> hands to \<open>Add\<close> for one line.\<close>

definition line_record :: "jsonlogger \<Rightarrow> string \<Rightarrow> log_entry" where
  "line_record j part =
     [''stepNumber'' \<mapsto> JInt (number j), ''stepName'' \<mapsto> JString (name j), ''line'' \<mapsto> JString part]"

text \<open>
  The loop of \<open>Write\<close>: one \<open>Add\<close> per part, leaving at the first error, which is returned.
\<close>

fun Write_loop ::
  "(log_entry list \<Rightarrow> log_entry \<Rightarrow> bool) \<Rightarrow> jsonlogger \<Rightarrow> FileWriter \<Rightarrow> string list \<Rightarrow> error option \<times> FileWriter" where
  "Write_loop ok j fw [] = (None, fw)"
| "Write_loop ok j fw (part # parts) =
     (case Add ok fw (line_record j part) of
        Inl e \<Rightarrow> (Some e, fw)
      | Inr fw' \<Rightarrow> Write_loop ok j fw' parts)"

text \<open>\<open>Write\<close> returns \<open>len(b)\<close> and the error, if any, on both ways out.\<close>

definition Write ::
  "(log_entry list \<Rightarrow> log_entry \<Rightarrow> bool) \<Rightarrow> jsonlogger \<Rightarrow> string \<Rightarrow> jSONFileStreamer
     \<Rightarrow> (int \<times> error option) \<times> jSONFileStreamer" where
  "Write ok j b st =
     (case Write_loop ok j (writer st) (split b) of
        (err, fw') \<Rightarrow> ((int (length b), err), st\<lparr>writer := fw'\<rparr>))"

text \<open>
  \<open>Stream\<close>: the loop stops at the first roster step with the given name; \<open>c\<close> stays nil when
  there is none, and reading \<open>c.Name\<close> then panics.
\<close>

definition Stream :: "jSONFileStreamer \<Rightarrow> drone_Step list \<Rightarrow> string \<Rightarrow> error + jsonlogger" where
  "Stream j steps n =
     (case find (\<lambda>s. StepName s = n) steps of
        None \<Rightarrow> Inl NilDereference
      | Some c \<Rightarrow> Inr \<lparr>name = StepName c, number = Number c\<rparr>)"

section \<open>Slash-separated paths (Go's package path, as far as generateStatement uses it)\<close>

text \<open>
  \<open>path.Clean\<close>, \<open>path.Join\<close>, \<open>path.Split\<close>, \<open>path.Dir\<close> and \<open>path.Base\<close> belong to Go's
  standard library and are written out from its documentation.  \<open>Clean\<close> returns the
  shortest equivalent path: it drops empty and \<open>.\<close> elements, cancels an inner \<open>..\<close> against
  the element before it, drops \<open>..\<close> at the root, and returns \<open>.\<close> for an empty result.  It is
  computed here on the list of elements between slashes, with the kept elements on a stack.
\<close>

primrec join_slash :: "string list \<Rightarrow> string" where
  "join_slash [] = []"
| "join_slash (e # es) = (if es = [] then e else e @ ''/'' @ join_slash es)"

fun clean_elems :: "bool \<Rightarrow> string list \<Rightarrow> string list \<Rightarrow> string list" where
  "clean_elems rooted stack [] = rev stack"
| "clean_elems rooted stack (e # es) =
     (if e = [] \<or> e = ''.'' then clean_elems rooted stack es
      else if e = ''..'' then
        (case stack of
           [] \<Rightarrow> if rooted then clean_elems rooted [] es else clean_elems rooted [e] es
         | kept # below \<Rightarrow>
             if kept = ''..'' then clean_elems rooted (e # stack) es
             else clean_elems rooted below es)
      else clean_elems rooted (e # stack) es)"

definition Clean :: "string \<Rightarrow> string" where
  "Clean p =
     (let rooted = prefix ''/'' p;
          out = (if rooted then ''/'' else []) @ join_slash (clean_elems rooted [] (Split p ''/''))
      in if out = [] then ''.'' else out)"

text \<open>
  \<open>Join\<close> returns the empty string when all elements are empty; otherwise it puts a slash
  between the elements, passing over empty ones at the front, and cleans the result.
\<close>

fun join_buf :: "string \<Rightarrow> string list \<Rightarrow> string" where
  "join_buf buf [] = buf"
| "join_buf buf (e # es) =
     (if 0 < length buf \<or> e \<noteq> []
      then join_buf ((if 0 < length buf then buf @ ''/'' else buf) @ e) es
      else join_buf buf es)"

definition Join :: "string list \<Rightarrow> string" where
  "Join elem = (if sum_list (map length elem) = 0 then [] else Clean (join_buf [] elem))"

text \<open>\<open>path.Split\<close> cuts after the last slash; \<open>Dir\<close> cleans the part before the cut.\<close>

definition path_Split :: "string \<Rightarrow> string \<times> string" where
  "path_Split p =
     (rev (dropWhile (\<lambda>c. c \<noteq> CHR ''/'') (rev p)), rev (takeWhile (\<lambda>c. c \<noteq> CHR ''/'') (rev p)))"

definition Dir :: "string \<Rightarrow> string" where
  "Dir p = Clean (fst (path_Split p))"

text \<open>
  \<open>Base\<close>: \<open>.\<close> for the empty path; otherwise trailing slashes are taken off and the part
  after the last slash is returned, or \<open>/\<close> when nothing is left.
\<close>

definition Base :: "string \<Rightarrow> string" where
  "Base p =
     (if p = [] then ''.''
      else let q = rev (dropWhile (\<lambda>c. c = CHR ''/'') (rev p));
               r = rev (takeWhile (\<lambda>c. c \<noteq> CHR ''/'') (rev q))
           in if r = [] then ''/'' else r)"

section \<open>The provenance statement (exec.go: materials, generateStatement, the end of exec)\<close>

text \<open>
  \<open>crane.Digest\<close> is a collaborator that asks an image registry; \<open>registry\<close> is the
  registry's answer for an image reference, an error or a digest.  The library returns the
  empty string together with every error.
\<close>

definition crane_Digest :: "(string \<Rightarrow> error + string) \<Rightarrow> string \<Rightarrow> string \<times> error option" where
  "crane_Digest registry ref =
     (case registry ref of Inl e \<Rightarrow> ([], Some e) | Inr d \<Rightarrow> (d, None))"

record ProvenanceMaterial =
  URI :: string
  Digest :: "string \<rightharpoonup> string"

text \<open>
  The loop of \<open>materials\<close>: \<open>dig, _ := crane.Digest(s.Image)\<close> keeps the string and drops
  the error; one material is appended per step.
\<close>

fun materials_loop ::
  "(string \<Rightarrow> error + string) \<Rightarrow> ProvenanceMaterial list \<Rightarrow> Step list \<Rightarrow> ProvenanceMaterial list" where
  "materials_loop registry mat [] = mat"
| "materials_loop registry mat (s # rest) =
     (let dig = fst (crane_Digest registry (Image s))
      in materials_loop registry
           (mat @ [\<lparr>URI = ''pkg:'' @ Image s @ ''@'' @ dig, Digest = [''sha256'' \<mapsto> dig]\<rparr>])
           rest)"

definition materials :: "(string \<Rightarrow> error + string) \<Rightarrow> Step list \<Rightarrow> ProvenanceMaterial list" where
  "materials registry steps = materials_loop registry [] steps"

text \<open>\<open>fmt.Sprintf("%d", n)\<close>: the decimal digits of an integer, with a sign when negative.\<close>

definition digit :: "nat \<Rightarrow> char" where
  "digit d = ''0123456789'' ! d"

fun digits :: "nat \<Rightarrow> string" where
  "digits n = (if n < 10 then [digit n] else digits (n div 10) @ [digit (n mod 10)])"

declare digits.simps [simp del]

definition Sprintf_d :: "int \<Rightarrow> string" where
  "Sprintf_d n = (if n < 0 then ''-'' @ digits (nat (- n)) else digits (nat n))"

text \<open>
  The statement, with the nesting of the in-toto and SLSA structs flattened into one
  record.  The two type tags are constants of the in-toto library.  The subject list is the
  nil slice.  The build configuration is a Go map with the one key \<open>steps\<close>.
\<close>

definition StatementInTotoV01 :: string where
  "StatementInTotoV01 = ''https://in-toto.io/Statement/v0.1''"

definition PredicateSLSAProvenance :: string where
  "PredicateSLSAProvenance = ''https://slsa.dev/provenance/v0.2''"

record ProvenanceStatement =
  Type :: string
  PredicateType :: string
  Subject :: "(string \<times> (string \<rightharpoonup> string)) list"
  BuildType :: string
  BuilderID :: string
  BuildInvocationID :: string
  Parameters :: "string \<rightharpoonup> string"
  BuildConfig :: "string \<rightharpoonup> Step list"
  Materials :: "ProvenanceMaterial list"

text \<open>
  The value \<open>att\<close> of \<open>generateStatement\<close>, from the build's identifier and parameters
  (\<open>commy.Build\<close>), the pipeline's kind and type and the compiled steps (\<open>spec.Steps\<close>).
\<close>

definition attestation ::
  "(string \<Rightarrow> error + string) \<Rightarrow> int \<Rightarrow> (string \<rightharpoonup> string) \<Rightarrow> string \<Rightarrow> string \<Rightarrow> Step list
     \<Rightarrow> ProvenanceStatement" where
  "attestation registry buildID params kind typ steps =
     \<lparr>Type = StatementInTotoV01,
      PredicateType = PredicateSLSAProvenance,
      Subject = [],
      BuildType = kind @ ''/'' @ typ,
      BuilderID = ''https://harness.drone.io/Attestations/DockerRunner'',
      BuildInvocationID = Sprintf_d buildID,
      Parameters = params,
      BuildConfig = [''steps'' \<mapsto> steps],
      Materials = materials registry steps\<rparr>"

text \<open>\<open>fp := path.Join(path.Dir(pf), path.Base(pf), "-provenance.json")\<close>\<close>

definition provenance_path :: "string \<Rightarrow> string" where
  "provenance_path pf = Join [Dir pf, Base pf, ''-provenance.json'']"

text \<open>
  What the program leaves behind: the files it created, each with the statements encoded
  into it, and the lines it logged at error level.  The collaborators that can fail are the
  registry, \<open>os.Create\<close> (by path) and the JSON encoder (by statement).
\<close>

record world =
  files :: "string \<rightharpoonup> ProvenanceStatement list"
  errors_logged :: "(string \<times> error) list"

record collaborators =
  registry :: "string \<Rightarrow> error + string"
  os_Create :: "string \<Rightarrow> error option"
  json_Encode :: "ProvenanceStatement \<Rightarrow> error option"

definition generateStatement ::
  "collaborators \<Rightarrow> string \<Rightarrow> int \<Rightarrow> (string \<rightharpoonup> string) \<Rightarrow> string \<Rightarrow> string \<Rightarrow> Step list
     \<Rightarrow> world \<Rightarrow> world" where
  "generateStatement env source buildID params kind typ steps w =
     (let att = attestation (registry env) buildID params kind typ steps;
          fp = provenance_path source
      in case os_Create env fp of
           Some e \<Rightarrow> w\<lparr>errors_logged := errors_logged w @ [(''Error generating attestation,'', e)]\<rparr>
         | None \<Rightarrow>
             (case json_Encode env att of
                Some e \<Rightarrow>
                  w\<lparr>files := (files w)(fp \<mapsto> []),
                    errors_logged := errors_logged w @ [(''Error generating attestation json,'', e)]\<rparr>
              | None \<Rightarrow> w\<lparr>files := (files w)(fp \<mapsto> [att])\<rparr>))"

text \<open>
  The end of \<open>exec\<close>, from the return of the runtime's \<open>Exec\<close> on: \<open>err\<close> is what \<open>Exec\<close>
  returned and \<open>status\<close> is \<open>state.Stage.Status\<close>.  An error is returned (after a dump of the
  state to standard output, which is not part of \<open>world\<close>); on one of three statuses the
  process exits with code 1; otherwise the statement is generated and \<open>exec\<close> returns nil.
\<close>

datatype outcome = Returned "error option" | Exited int

definition exec_after_run ::
  "collaborators \<Rightarrow> string \<Rightarrow> int \<Rightarrow> (string \<rightharpoonup> string) \<Rightarrow> string \<Rightarrow> string \<Rightarrow> Step list
     \<Rightarrow> error option \<Rightarrow> string \<Rightarrow> world \<Rightarrow> outcome \<times> world" where
  "exec_after_run env source buildID params kind typ steps err status w =
     (case err of
        Some e \<Rightarrow> (Returned (Some e), w)
      | None \<Rightarrow>
          if status = StatusError \<or> status = StatusFailing \<or> status = StatusKilled
          then (Exited 1, w)
          else (Returned None, generateStatement env source buildID params kind typ steps w))"

section \<open>Properties of the sequence counter\<close>

lemma seq_next_unlocked:
  "\<not> locked s \<Longrightarrow> seq_next s = Some (seq_value s + 1, s\<lparr>seq_value := seq_value s + 1\<rparr>)"
  by (simp add: seq_next_def Lock_def Unlock_def Let_def)

lemma curr_unlocked: "\<not> locked s \<Longrightarrow> curr s = Some (seq_value s, s)"
  by (simp add: curr_def Lock_def Unlock_def Let_def)

lemma next_calls_unlocked:
  "\<not> locked s \<Longrightarrow>
   next_calls n s =
     Some (map (\<lambda>k. seq_value s + of_nat k) [1..<Suc n], s\<lparr>seq_value := seq_value s + of_nat n\<rparr>)"
proof (induction n arbitrary: s)
  case 0
  then show ?case by simp
next
  case (Suc n)
  let ?s' = "s\<lparr>seq_value := seq_value s + 1\<rparr>"
  have step: "seq_next s = Some (seq_value s + 1, ?s')"
    using Suc.prems by (rule seq_next_unlocked)
  have free: "\<not> locked ?s'"
    using Suc.prems by simp
  have shift: "map (\<lambda>k. seq_value ?s' + of_nat k) [1..<Suc n]
             = map (\<lambda>k. seq_value s + of_nat k) [2..<Suc (Suc n)]"
  proof -
    have "[2..<Suc (Suc n)] = map Suc [1..<Suc n]"
      by (simp add: map_Suc_upt numeral_2_eq_2)
    then show ?thesis
      by (simp add: comp_def add.assoc)
  qed
  have front: "[1..<Suc (Suc n)] = 1 # [2..<Suc (Suc n)]"
    by (simp add: upt_conv_Cons numeral_2_eq_2)
  show ?case
    by (simp only: next_calls.simps step option.case prod.case Suc.IH [OF free] shift front)
       (simp add: add.assoc)
qed

lemma sint_of_nat_small:
  "n < 2 ^ 63 \<Longrightarrow> sint (of_nat n :: 64 word) = int n"
  by (simp add: signed_of_nat signed_take_bit_int_eq_self)

text \<open>
  Claim C8.  On a fresh counter, \<open>n\<close> calls of \<open>next\<close> in a row all return, and the values
  they return are \<open>1, 2, ..., n\<close> in call order (so the \<open>i\<close>-th call returns \<open>i\<close>, every value of
  \<open>1..n\<close> is returned once and none other); the stored value is then \<open>n\<close>; \<open>curr\<close> returns the
  stored value and leaves the counter as it found it, and on a fresh counter it returns 0.
  The numbers are the signed readings of Go's 64-bit \<open>int\<close>, which cover \<open>n\<close> below \<open>2^63\<close>.
\<close>

theorem sequence_next_returns_call_index:
  assumes "n < 2 ^ 63"
  shows "(\<exists>rs s'. next_calls n new_sequence = Some (rs, s')
            \<and> map sint rs = map int [1..<Suc n]
            \<and> sint (seq_value s') = int n
            \<and> curr s' = Some (seq_value s', s'))
         \<and> curr new_sequence = Some (0, new_sequence)"
proof -
  let ?s' = "new_sequence\<lparr>seq_value := seq_value new_sequence + of_nat n\<rparr>"
  let ?rs = "map (\<lambda>k. seq_value new_sequence + of_nat k) [1..<Suc n]"
  have fresh: "\<not> locked new_sequence"
    by (simp add: new_sequence_def)
  have run: "next_calls n new_sequence = Some (?rs, ?s')"
    using fresh by (rule next_calls_unlocked)
  have "\<And>k. k \<in> set [1..<Suc n] \<Longrightarrow> sint (of_nat k :: 64 word) = int k"
    using assms by (intro sint_of_nat_small) auto
  then have vals: "map sint ?rs = map int [1..<Suc n]"
    by (simp add: new_sequence_def)
  have final: "sint (seq_value ?s') = int n"
    using assms by (simp add: new_sequence_def sint_of_nat_small)
  have "\<not> locked ?s'"
    by (simp add: new_sequence_def)
  then have read: "curr ?s' = Some (seq_value ?s', ?s')"
    by (rule curr_unlocked)
  have zero: "curr new_sequence = Some (0, new_sequence)"
    using curr_unlocked [OF fresh] by (simp add: new_sequence_def)
  from run vals final read zero show ?thesis
    by blast
qed

theorem sequence_next_returns_call_index_witness:
  "(3::nat) < 2 ^ 63
   \<and> (\<exists>rs s'. next_calls 3 new_sequence = Some (rs, s')
          \<and> map sint rs = [1, 2, 3]
          \<and> sint (seq_value s') = 3
          \<and> curr s' = Some (seq_value s', s'))
   \<and> curr new_sequence = Some (0, new_sequence)"
proof -
  have small: "(3::nat) < 2 ^ 63"
    by simp
  have "map int [1..<Suc 3] = [1, 2, 3]"
    by (simp add: upt_conv_Cons)
  with sequence_next_returns_call_index [OF small] small show ?thesis
    by simp
qed

section \<open>Properties of step selection\<close>

lemma mark_excluded_eq:
  "mark_excluded excl s = (if Name s \<in> set excl then s\<lparr>RunPolicy := RunNever\<rparr> else s)"
  by (induction excl arbitrary: s) auto

lemma resume_loop_eq:
  "resume_loop resumeAt excl steps =
     map (\<lambda>s. if Name s = ''clone'' then s
               else if Name s \<in> set excl then s\<lparr>RunPolicy := RunNever\<rparr> else s)
         (takeWhile (\<lambda>s. Name s \<noteq> resumeAt) steps)
     @ dropWhile (\<lambda>s. Name s \<noteq> resumeAt) steps"
  by (induction steps) (simp_all add: mark_excluded_eq)

lemma length_include_phase: "length (include_phase incl steps) = length steps"
  by (simp add: include_phase_def)

lemma length_exclude_phase: "length (exclude_phase excl steps) = length steps"
  by (simp add: exclude_phase_def)

lemma include_exclude_nth:
  "i < length steps \<Longrightarrow>
   exclude_phase excl (include_phase incl steps) ! i
     = (if excl = [] then (\<lambda>s. s) else exclude_step excl)
         ((if incl = [] then (\<lambda>s. s) else include_step incl) (steps ! i))"
  by (simp add: include_phase_def exclude_phase_def)

text \<open>
  Claim C5.  After the include and the exclude loop, at every position of the step list:
  the step has the name it had; a step named \<open>clone\<close> has the run policy it had; any other
  step is \<open>RunNever\<close> when the include list is not empty and lacks its name, and is
  \<open>RunNever\<close> when the exclude list has its name (so also when both lists have it); and any
  other step that neither rule applies to has the run policy it had.
\<close>

theorem include_exclude_policy:
  assumes "i < length steps"
  shows "length (exclude_phase excl (include_phase incl steps)) = length steps
       \<and> Name (exclude_phase excl (include_phase incl steps) ! i) = Name (steps ! i)
       \<and> (Name (steps ! i) = ''clone'' \<longrightarrow>
            RunPolicy (exclude_phase excl (include_phase incl steps) ! i) = RunPolicy (steps ! i))
       \<and> (Name (steps ! i) \<noteq> ''clone'' \<and> incl \<noteq> [] \<and> Name (steps ! i) \<notin> set incl \<longrightarrow>
            RunPolicy (exclude_phase excl (include_phase incl steps) ! i) = RunNever)
       \<and> (Name (steps ! i) \<noteq> ''clone'' \<and> Name (steps ! i) \<in> set excl \<longrightarrow>
            RunPolicy (exclude_phase excl (include_phase incl steps) ! i) = RunNever)
       \<and> (Name (steps ! i) \<noteq> ''clone'' \<and> (incl = [] \<or> Name (steps ! i) \<in> set incl)
            \<and> Name (steps ! i) \<notin> set excl \<longrightarrow>
            RunPolicy (exclude_phase excl (include_phase incl steps) ! i) = RunPolicy (steps ! i))"
  unfolding include_exclude_nth [OF assms] length_exclude_phase length_include_phase
  by (auto simp: include_step_def exclude_step_def)

theorem include_exclude_policy_witness:
  "(2::nat) < length [\<lparr>Name = ''clone'', Image = ''git'', RunPolicy = RunOnSuccess, ErrPolicy = ErrFail\<rparr>,
                      \<lparr>Name = ''build'', Image = ''golang'', RunPolicy = RunOnSuccess, ErrPolicy = ErrFail\<rparr>,
                      \<lparr>Name = ''test'', Image = ''golang'', RunPolicy = RunOnSuccess, ErrPolicy = ErrFail\<rparr>]
   \<and> RunPolicy (exclude_phase [''test''] (include_phase [''build'', ''test'']
        [\<lparr>Name = ''clone'', Image = ''git'', RunPolicy = RunOnSuccess, ErrPolicy = ErrFail\<rparr>,
         \<lparr>Name = ''build'', Image = ''golang'', RunPolicy = RunOnSuccess, ErrPolicy = ErrFail\<rparr>,
         \<lparr>Name = ''test'', Image = ''golang'', RunPolicy = RunOnSuccess, ErrPolicy = ErrFail\<rparr>]) ! 2)
     = RunNever"
proof -
  let ?steps = "[\<lparr>Name = ''clone'', Image = ''git'', RunPolicy = RunOnSuccess, ErrPolicy = ErrFail\<rparr>,
                 \<lparr>Name = ''build'', Image = ''golang'', RunPolicy = RunOnSuccess, ErrPolicy = ErrFail\<rparr>,
                 \<lparr>Name = ''test'', Image = ''golang'', RunPolicy = RunOnSuccess, ErrPolicy = ErrFail\<rparr>]"
  have inside: "(2::nat) < length ?steps"
    by simp
  from include_exclude_policy [OF inside, of "[''test'']" "[''build'', ''test'']"] inside
  show ?thesis
    by simp
qed

text \<open>
  Claim C6.  The resume-at loop does nothing for the empty name.  Otherwise it splits the
  list at the first step that carries the resume-at name: that step and all after it are
  left as they are; of the steps before it, \<open>clone\<close> is left as it is and any other step is
  set to \<open>RunNever\<close> exactly when the exclude list has its name.  For resume-at \<open>test\<close>,
  exclude list \<open>build\<close> and the steps clone, build, test, deploy, the whole selection leaves
  clone, test and deploy to run and skips build.
\<close>

theorem resume_phase_marks_before_resume_point:
  "resume_phase resumeAt excl steps =
     (if resumeAt = [] then steps
      else map (\<lambda>s. if Name s = ''clone'' then s
                     else if Name s \<in> set excl then s\<lparr>RunPolicy := RunNever\<rparr> else s)
               (takeWhile (\<lambda>s. Name s \<noteq> resumeAt) steps)
           @ dropWhile (\<lambda>s. Name s \<noteq> resumeAt) steps)
   \<and> map RunPolicy (select_steps [] [''build''] ''test''
        [\<lparr>Name = ''clone'', Image = ''git'', RunPolicy = RunOnSuccess, ErrPolicy = ErrFail\<rparr>,
         \<lparr>Name = ''build'', Image = ''golang'', RunPolicy = RunOnSuccess, ErrPolicy = ErrFail\<rparr>,
         \<lparr>Name = ''test'', Image = ''golang'', RunPolicy = RunOnSuccess, ErrPolicy = ErrFail\<rparr>,
         \<lparr>Name = ''deploy'', Image = ''kubectl'', RunPolicy = RunOnSuccess, ErrPolicy = ErrFail\<rparr>])
     = [RunOnSuccess, RunNever, RunOnSuccess, RunOnSuccess]
   \<and> map RunPolicy (resume_phase ''test'' [''build'']
        [\<lparr>Name = ''clone'', Image = ''git'', RunPolicy = RunOnSuccess, ErrPolicy = ErrFail\<rparr>,
         \<lparr>Name = ''build'', Image = ''golang'', RunPolicy = RunOnSuccess, ErrPolicy = ErrFail\<rparr>,
         \<lparr>Name = ''test'', Image = ''golang'', RunPolicy = RunOnSuccess, ErrPolicy = ErrFail\<rparr>,
         \<lparr>Name = ''deploy'', Image = ''kubectl'', RunPolicy = RunOnSuccess, ErrPolicy = ErrFail\<rparr>])
     = [RunOnSuccess, RunNever, RunOnSuccess, RunOnSuccess]"
proof -
  have general: "resume_phase resumeAt excl steps =
     (if resumeAt = [] then steps
      else map (\<lambda>s. if Name s = ''clone'' then s
                     else if Name s \<in> set excl then s\<lparr>RunPolicy := RunNever\<rparr> else s)
               (takeWhile (\<lambda>s. Name s \<noteq> resumeAt) steps)
           @ dropWhile (\<lambda>s. Name s \<noteq> resumeAt) steps)"
    by (simp add: resume_phase_def resume_loop_eq)
  have whole: "map RunPolicy (select_steps [] [''build''] ''test''
        [\<lparr>Name = ''clone'', Image = ''git'', RunPolicy = RunOnSuccess, ErrPolicy = ErrFail\<rparr>,
         \<lparr>Name = ''build'', Image = ''golang'', RunPolicy = RunOnSuccess, ErrPolicy = ErrFail\<rparr>,
         \<lparr>Name = ''test'', Image = ''golang'', RunPolicy = RunOnSuccess, ErrPolicy = ErrFail\<rparr>,
         \<lparr>Name = ''deploy'', Image = ''kubectl'', RunPolicy = RunOnSuccess, ErrPolicy = ErrFail\<rparr>])
     = [RunOnSuccess, RunNever, RunOnSuccess, RunOnSuccess]"
    by (simp add: select_steps_def include_phase_def exclude_phase_def exclude_step_def
        resume_phase_def)
  have alone: "map RunPolicy (resume_phase ''test'' [''build'']
        [\<lparr>Name = ''clone'', Image = ''git'', RunPolicy = RunOnSuccess, ErrPolicy = ErrFail\<rparr>,
         \<lparr>Name = ''build'', Image = ''golang'', RunPolicy = RunOnSuccess, ErrPolicy = ErrFail\<rparr>,
         \<lparr>Name = ''test'', Image = ''golang'', RunPolicy = RunOnSuccess, ErrPolicy = ErrFail\<rparr>,
         \<lparr>Name = ''deploy'', Image = ''kubectl'', RunPolicy = RunOnSuccess, ErrPolicy = ErrFail\<rparr>])
     = [RunOnSuccess, RunNever, RunOnSuccess, RunOnSuccess]"
    by (simp add: resume_phase_def)
  from general whole alone show ?thesis
    by blast
qed

section \<open>Properties of the log sink\<close>

lemma length_split_from_byte: "length (split_from [c] cur s) = count_list s c + 1"
  by (induction s arbitrary: cur) simp_all

lemma length_split: "length (split b) = count_list (TrimSuffix b ''\<newline>'') (CHR 0x0A) + 1"
  by (simp add: split_def Split_def length_split_from_byte)



lemma split_empty: "split [] = [[]]"
  by (simp add: split_def Split_def TrimSuffix_def HasSuffix_def)

lemma split_newline: "split ''\<newline>'' = [[]]"
  by (simp add: split_def Split_def TrimSuffix_def HasSuffix_def)

lemma TrimSuffix_newline:
  "TrimSuffix b ''\<newline>'' = (if b \<noteq> [] \<and> last b = CHR 0x0A then butlast b else b)"
proof (cases b rule: rev_cases)
  case Nil
  then show ?thesis by (simp add: TrimSuffix_def HasSuffix_def)
next
  case (snoc ys y)
  then show ?thesis by (auto simp: TrimSuffix_def HasSuffix_def)
qed

lemma Write_loop_success:
  "fst (Write_loop ok j fw parts) = None \<Longrightarrow>
   entries (snd (Write_loop ok j fw parts)) = entries fw @ map (line_record j) parts"
  by (induction parts arbitrary: fw) (auto simp: Add_def split: if_splits)

lemma Write_success:
  assumes "snd (fst (Write ok j b st)) = None"
  shows "entries (writer (snd (Write ok j b st))) = entries (writer st) @ map (line_record j) (split b)"
proof -
  obtain err fw' where loop: "Write_loop ok j (writer st) (split b) = (err, fw')"
    by (cases "Write_loop ok j (writer st) (split b)")
  with assms have "err = None"
    by (simp add: Write_def)
  with loop Write_loop_success [of ok j "writer st" "split b"] show ?thesis
    by (simp add: Write_def)
qed






text \<open>
  Claim C10.  A write none of whose appends fails adds exactly \<open>k + 1\<close> records, \<open>k\<close> being
  the number of line terminators in the input once a line terminator at its very end, if
  there is one, has been taken away (one only: the input without its last byte when that
  byte is a line terminator, the input itself otherwise).  For the empty input and for the
  input that is one line terminator it adds one record: the sink's number, the sink's name
  and the empty string as the line.  So a write that succeeds never adds no record.
\<close>

theorem Write_record_count:
  assumes "snd (fst (Write ok j b st)) = None"
  shows "length (entries (writer (snd (Write ok j b st))))
           = length (entries (writer st))
             + (count_list (if b \<noteq> [] \<and> last b = CHR 0x0A then butlast b else b) (CHR 0x0A) + 1)
         \<and> (b = [] \<or> b = ''\<newline>'' \<longrightarrow>
              entries (writer (snd (Write ok j b st)))
                = entries (writer st)
                  @ [[''stepNumber'' \<mapsto> JInt (number j), ''stepName'' \<mapsto> JString (name j),
                      ''line'' \<mapsto> JString []]])
         \<and> length (entries (writer st)) < length (entries (writer (snd (Write ok j b st))))"
proof -
  have all: "entries (writer (snd (Write ok j b st))) = entries (writer st) @ map (line_record j) (split b)"
    using assms by (rule Write_success)
  have count: "length (entries (writer (snd (Write ok j b st))))
          = length (entries (writer st))
            + (count_list (if b \<noteq> [] \<and> last b = CHR 0x0A then butlast b else b) (CHR 0x0A) + 1)"
    by (simp only: all length_append length_map length_split TrimSuffix_newline)
  have one: "b = [] \<or> b = ''\<newline>'' \<longrightarrow>
      entries (writer (snd (Write ok j b st)))
        = entries (writer st)
          @ [[''stepNumber'' \<mapsto> JInt (number j), ''stepName'' \<mapsto> JString (name j), ''line'' \<mapsto> JString []]]"
    using all split_empty split_newline by (auto simp: line_record_def)
  from count have "length (entries (writer st)) < length (entries (writer (snd (Write ok j b st))))"
    by simp
  with count one show ?thesis
    by blast
qed

text \<open>
  The write of one line terminator to an empty file: one record, with the empty line.
\<close>

theorem Write_record_count_witness:
  "snd (fst (Write (\<lambda>file v. True) \<lparr>name = ''build'', number = 2\<rparr> ''\<newline>''
          \<lparr>seq = new_sequence, col = new_sequence, logFile = ''logs/7.log'', writer = \<lparr>entries = []\<rparr>\<rparr>)) = None
   \<and> entries (writer (snd (Write (\<lambda>file v. True) \<lparr>name = ''build'', number = 2\<rparr> ''\<newline>''
          \<lparr>seq = new_sequence, col = new_sequence, logFile = ''logs/7.log'', writer = \<lparr>entries = []\<rparr>\<rparr>)))
     = [[''stepNumber'' \<mapsto> JInt 2, ''stepName'' \<mapsto> JString ''build'', ''line'' \<mapsto> JString []]]
   \<and> length (entries (writer (snd (Write (\<lambda>file v. True) \<lparr>name = ''build'', number = 2\<rparr> ''\<newline>''
          \<lparr>seq = new_sequence, col = new_sequence, logFile = ''logs/7.log'', writer = \<lparr>entries = []\<rparr>\<rparr>)))) = 1"
proof -
  let ?st = "\<lparr>seq = new_sequence, col = new_sequence, logFile = ''logs/7.log'', writer = \<lparr>entries = []\<rparr>\<rparr>"
  let ?j = "\<lparr>name = ''build'', number = 2\<rparr>"
  have ok: "snd (fst (Write (\<lambda>file v. True) ?j ''\<newline>'' ?st)) = None"
    by (simp add: Write_def split_newline Add_def)
  from Write_record_count [OF ok] ok show ?thesis
    by simp
qed

text \<open>
  Claim C9.  When some roster step carries the requested name, \<open>Stream\<close> returns a sink and
  not the nil-pointer panic, and the sink carries the name and the number of the first
  roster step with that name.
\<close>

theorem Stream_tags_first_match:
  assumes "\<exists>s \<in> set steps. StepName s = n"
  shows "\<exists>i < length steps.
           StepName (steps ! i) = n \<and> (\<forall>k < i. StepName (steps ! k) \<noteq> n)
           \<and> Stream j steps n = Inr \<lparr>name = StepName (steps ! i), number = Number (steps ! i)\<rparr>
           \<and> Stream j steps n \<noteq> Inl NilDereference"
proof -
  from assms obtain c where c: "find (\<lambda>s. StepName s = n) steps = Some c"
    by (cases "find (\<lambda>s. StepName s = n) steps") (auto simp: find_None_iff)
  then obtain i where "i < length steps" "StepName (steps ! i) = n" "c = steps ! i"
    "\<forall>k < i. StepName (steps ! k) \<noteq> n"
    by (auto simp: find_Some_iff)
  then show ?thesis
    using c by (auto simp: Stream_def)
qed

theorem Stream_tags_first_match_witness:
  "(\<exists>s \<in> set [\<lparr>StageID = 1, Number = 1, StepName = ''clone'', Status = ''pending'', ErrIgnore = False\<rparr>,
               \<lparr>StageID = 1, Number = 2, StepName = ''build'', Status = ''pending'', ErrIgnore = False\<rparr>,
               \<lparr>StageID = 1, Number = 3, StepName = ''build'', Status = ''pending'', ErrIgnore = False\<rparr>].
       StepName s = ''build'')
   \<and> Stream \<lparr>seq = new_sequence, col = new_sequence, logFile = ''logs/7.log'', writer = \<lparr>entries = []\<rparr>\<rparr>
        [\<lparr>StageID = 1, Number = 1, StepName = ''clone'', Status = ''pending'', ErrIgnore = False\<rparr>,
         \<lparr>StageID = 1, Number = 2, StepName = ''build'', Status = ''pending'', ErrIgnore = False\<rparr>,
         \<lparr>StageID = 1, Number = 3, StepName = ''build'', Status = ''pending'', ErrIgnore = False\<rparr>]
        ''build''
     = Inr \<lparr>name = ''build'', number = 2\<rparr>"
proof -
  let ?steps = "[\<lparr>StageID = 1, Number = 1, StepName = ''clone'', Status = ''pending'', ErrIgnore = False\<rparr>,
                 \<lparr>StageID = 1, Number = 2, StepName = ''build'', Status = ''pending'', ErrIgnore = False\<rparr>,
                 \<lparr>StageID = 1, Number = 3, StepName = ''build'', Status = ''pending'', ErrIgnore = False\<rparr>]"
  have present: "\<exists>s \<in> set ?steps. StepName s = ''build''"
    by simp
  from Stream_tags_first_match [OF present] present show ?thesis
    by (simp add: Stream_def)
qed

section \<open>Properties of the stage roster and of step selection as a whole\<close>

lemma roster_names:
  "map StepName (roster_loop sid roster steps)
     = map StepName roster @ map Name (filter (\<lambda>s. RunPolicy s \<noteq> RunNever) steps)"
  by (induction steps arbitrary: roster) simp_all

lemma roster_numbers_from:
  "map Number (roster_loop sid roster steps)
     = map Number roster
       @ map (\<lambda>k. int (length roster) + 1 + int k)
             [0 ..< length (filter (\<lambda>s. RunPolicy s \<noteq> RunNever) steps)]"
proof (induction steps arbitrary: roster)
  case Nil
  then show ?case by simp
next
  case (Cons s steps)
  show ?case
  proof (cases "RunPolicy s = RunNever")
    case True
    then show ?thesis using Cons.IH [of roster] by simp
  next
    case False
    then show ?thesis
      using Cons.IH [of "roster @ [\<lparr>StageID = sid, Number = int (length roster) + 1, StepName = Name s,
                         Status = StatusPending, ErrIgnore = (ErrPolicy s = ErrPolicy.ErrIgnore)\<rparr>]"]
      by (simp add: map_upt_Suc del: upt_Suc)
  qed
qed

lemma roster_numbers:
  "map Number (roster_loop sid [] steps)
     = map int [1 ..< Suc (length (filter (\<lambda>s. RunPolicy s \<noteq> RunNever) steps))]"
proof -
  have "map int [1 ..< Suc m] = map (\<lambda>k. 1 + int k) [0 ..< m]" for m
  proof -
    have "[1 ..< Suc m] = map Suc [0 ..< m]"
      by (simp only: map_Suc_upt One_nat_def)
    then show ?thesis by (simp add: comp_def)
  qed
  then show ?thesis
    by (simp add: roster_numbers_from)
qed

lemma select_keeps_rest:
  "map (\<lambda>s. s\<lparr>RunPolicy := RunOnSuccess\<rparr>) (select_steps incl excl resumeAt steps)
     = map (\<lambda>s. s\<lparr>RunPolicy := RunOnSuccess\<rparr>) steps"
proof -
  have inc: "\<And>xs. map (\<lambda>s. s\<lparr>RunPolicy := RunOnSuccess\<rparr>) (include_phase incl xs) = map (\<lambda>s. s\<lparr>RunPolicy := RunOnSuccess\<rparr>) xs"
    by (simp add: include_phase_def include_step_def)
  have exc: "\<And>xs. map (\<lambda>s. s\<lparr>RunPolicy := RunOnSuccess\<rparr>) (exclude_phase excl xs) = map (\<lambda>s. s\<lparr>RunPolicy := RunOnSuccess\<rparr>) xs"
    by (simp add: exclude_phase_def exclude_step_def)
  have res: "\<And>xs. map (\<lambda>s. s\<lparr>RunPolicy := RunOnSuccess\<rparr>) (resume_phase resumeAt excl xs) = map (\<lambda>s. s\<lparr>RunPolicy := RunOnSuccess\<rparr>) xs"
  proof -
    fix xs
    have "map (\<lambda>s. s\<lparr>RunPolicy := RunOnSuccess\<rparr>) (resume_loop resumeAt excl xs) = map (\<lambda>s. s\<lparr>RunPolicy := RunOnSuccess\<rparr>) xs"
      by (induction xs) (simp_all add: mark_excluded_eq)
    then show "map (\<lambda>s. s\<lparr>RunPolicy := RunOnSuccess\<rparr>) (resume_phase resumeAt excl xs) = map (\<lambda>s. s\<lparr>RunPolicy := RunOnSuccess\<rparr>) xs"
      by (simp add: resume_phase_def)
  qed
  show ?thesis
    by (simp only: select_steps_def res exc inc)
qed

lemma length_select_steps: "length (select_steps incl excl resumeAt steps) = length steps"
  using select_keeps_rest [of incl excl resumeAt steps, THEN arg_cong, of length] by simp


section \<open>Properties of the provenance statement\<close>

lemma materials_loop_eq:
  "materials_loop reg mat steps =
     mat @ map (\<lambda>s. \<lparr>URI = ''pkg:'' @ Image s @ ''@'' @ fst (crane_Digest reg (Image s)),
                     Digest = [''sha256'' \<mapsto> fst (crane_Digest reg (Image s))]\<rparr>) steps"
  by (induction steps arbitrary: mat) (simp_all add: Let_def)

lemma materials_eq:
  "materials reg steps =
     map (\<lambda>s. \<lparr>URI = ''pkg:'' @ Image s @ ''@'' @ fst (crane_Digest reg (Image s)),
                Digest = [''sha256'' \<mapsto> fst (crane_Digest reg (Image s))]\<rparr>) steps"
  by (simp add: materials_def materials_loop_eq)


text \<open>
  Claim C7.  The materials of the provenance statement hold one entry per compiled step,
  in the order of the steps and with no regard to the run policy of a step: the entry of a
  step is the package reference \<open>pkg:<image>@<digest>\<close> together with the digest under the
  key \<open>sha256\<close>.  A failed digest lookup is not reported: the entry of that step is still
  there, with the empty string as its digest.
\<close>

theorem materials_one_entry_per_step:
  "materials reg steps =
     map (\<lambda>s. \<lparr>URI = ''pkg:'' @ Image s @ ''@'' @ fst (crane_Digest reg (Image s)),
                Digest = [''sha256'' \<mapsto> fst (crane_Digest reg (Image s))]\<rparr>) steps
   \<and> length (materials reg steps) = length steps
   \<and> (\<forall>i < length steps. \<forall>e. reg (Image (steps ! i)) = Inl e \<longrightarrow>
         materials reg steps ! i
           = \<lparr>URI = ''pkg:'' @ Image (steps ! i) @ ''@'', Digest = [''sha256'' \<mapsto> []]\<rparr>)"
  by (simp add: materials_eq crane_Digest_def)


text \<open>
  The statement at a registry that knows no digest for \<open>golang\<close>: the second step, which is
  also set to \<open>RunNever\<close>, has its entry, with an empty digest.
\<close>

theorem materials_one_entry_per_step_witness:
  "(1::nat) < length [\<lparr>Name = ''clone'', Image = ''drone/git'', RunPolicy = RunOnSuccess, ErrPolicy = ErrFail\<rparr>,
                      \<lparr>Name = ''build'', Image = ''golang'', RunPolicy = RunNever, ErrPolicy = ErrFail\<rparr>]
   \<and> (\<lambda>ref. if ref = ''golang'' then Inl LookupError else Inr ''sha256:0a'') ''golang'' = Inl LookupError
   \<and> materials (\<lambda>ref. if ref = ''golang'' then Inl LookupError else Inr ''sha256:0a'')
        [\<lparr>Name = ''clone'', Image = ''drone/git'', RunPolicy = RunOnSuccess, ErrPolicy = ErrFail\<rparr>,
         \<lparr>Name = ''build'', Image = ''golang'', RunPolicy = RunNever, ErrPolicy = ErrFail\<rparr>] ! 1
     = \<lparr>URI = ''pkg:golang@'', Digest = [''sha256'' \<mapsto> []]\<rparr>"
proof -
  let ?reg = "\<lambda>ref. if ref = ''golang'' then Inl LookupError else Inr ''sha256:0a''"
  let ?steps = "[\<lparr>Name = ''clone'', Image = ''drone/git'', RunPolicy = RunOnSuccess, ErrPolicy = ErrFail\<rparr>,
                 \<lparr>Name = ''build'', Image = ''golang'', RunPolicy = RunNever, ErrPolicy = ErrFail\<rparr>]"
  have inside: "(1::nat) < length ?steps" by simp
  have fails: "?reg (Image (?steps ! 1)) = Inl LookupError" by simp
  from materials_one_entry_per_step [of ?reg ?steps]
  have "materials ?reg ?steps ! 1
          = \<lparr>URI = ''pkg:'' @ Image (?steps ! 1) @ ''@'', Digest = [''sha256'' \<mapsto> []]\<rparr>"
    using inside fails by blast
  then show ?thesis by simp
qed


text \<open>
  Claim C4.  The provenance file is meant to lie next to the pipeline source file.  The
  path that \<open>generateStatement\<close> hands to \<open>os.Create\<close> joins the directory of the source,
  the file name of the source and \<open>-provenance.json\<close> as three path elements.  The file
  name of the source so becomes a directory of the path: for the source \<open>.drone.yml\<close> the
  path is \<open>.drone.yml/-provenance.json\<close>, whose directory is \<open>.drone.yml\<close>, while the
  directory of the source is \<open>.\<close>; for \<open>ci/.drone.yml\<close> the path is
  \<open>ci/.drone.yml/-provenance.json\<close>, whose directory is \<open>ci/.drone.yml\<close> and not \<open>ci\<close>.
\<close>

theorem provenance_path_below_source:
  "provenance_path ''.drone.yml'' = ''.drone.yml/-provenance.json''
   \<and> Dir (provenance_path ''.drone.yml'') = ''.drone.yml''
   \<and> Dir ''.drone.yml'' = ''.''
   \<and> provenance_path ''ci/.drone.yml'' = ''ci/.drone.yml/-provenance.json''
   \<and> Dir (provenance_path ''ci/.drone.yml'') = ''ci/.drone.yml''
   \<and> Dir ''ci/.drone.yml'' = ''ci''"
proof -
  have p: "provenance_path ''.drone.yml'' = ''.drone.yml/-provenance.json''"
    by (simp add: provenance_path_def Join_def Dir_def Base_def path_Split_def Clean_def Split_def)
  have d: "Dir ''.drone.yml/-provenance.json'' = ''.drone.yml''"
    by (simp add: Dir_def path_Split_def Clean_def Split_def)
  have s: "Dir ''.drone.yml'' = ''.''"
    by (simp add: Dir_def path_Split_def Clean_def Split_def)
  have p': "provenance_path ''ci/.drone.yml'' = ''ci/.drone.yml/-provenance.json''"
    by (simp add: provenance_path_def Join_def Dir_def Base_def path_Split_def Clean_def Split_def)
  have d': "Dir ''ci/.drone.yml/-provenance.json'' = ''ci/.drone.yml''"
    by (simp add: Dir_def path_Split_def Clean_def Split_def)
  have s': "Dir ''ci/.drone.yml'' = ''ci''"
    by (simp add: Dir_def path_Split_def Clean_def Split_def)
  from p d s p' d' s' show ?thesis by simp
qed

text \<open>
  Claim C3, as the program has it.  What \<open>exec\<close> gives back after the run depends on the
  error and the final status of the run only, never on what happens while the statement is
  assembled: a failed file creation, a failed encoding and a failed digest lookup leave the
  outcome alone.  The statement is assembled only for a run that returned no error and did
  not end in the status error, failure or killed.  For every other run the files and the
  log are left as they were: the function returns the error, or the process exits with
  code 1, before \<open>generateStatement\<close> is reached.  For a run that gets there, a failed
  creation adds one log line and no file; a failed encoding adds one log line and leaves
  the created file empty; otherwise the file holds the statement.  A failed digest lookup
  is not logged at all: when creation and encoding succeed the log is what it was, whatever
  the registry answers, and the material of a step whose lookup failed carries the empty
  digest.
\<close>

theorem exec_after_run_outcome:
  "fst (exec_after_run env source buildID params kind typ steps err status w)
     = (case err of
          Some e \<Rightarrow> Returned (Some e)
        | None \<Rightarrow> if status = StatusError \<or> status = StatusFailing \<or> status = StatusKilled
                  then Exited 1 else Returned None)
   \<and> (err \<noteq> None \<or> status = StatusError \<or> status = StatusFailing \<or> status = StatusKilled \<longrightarrow>
        snd (exec_after_run env source buildID params kind typ steps err status w) = w)
   \<and> (err = None \<and> status \<noteq> StatusError \<and> status \<noteq> StatusFailing \<and> status \<noteq> StatusKilled \<longrightarrow>
        snd (exec_after_run env source buildID params kind typ steps err status w)
          = (case os_Create env (provenance_path source) of
               Some e \<Rightarrow> w\<lparr>errors_logged := errors_logged w @ [(''Error generating attestation,'', e)]\<rparr>
             | None \<Rightarrow>
                 (case json_Encode env (attestation (registry env) buildID params kind typ steps) of
                    Some e \<Rightarrow>
                      w\<lparr>files := (files w)(provenance_path source \<mapsto> []),
                        errors_logged := errors_logged w @ [(''Error generating attestation json,'', e)]\<rparr>
                  | None \<Rightarrow>
                      w\<lparr>files := (files w)(provenance_path source \<mapsto>
                                    [attestation (registry env) buildID params kind typ steps])\<rparr>)))
   \<and> (os_Create env (provenance_path source) = None
        \<and> json_Encode env (attestation (registry env) buildID params kind typ steps) = None \<longrightarrow>
        errors_logged (snd (exec_after_run env source buildID params kind typ steps err status w))
          = errors_logged w)
   \<and> Materials (attestation (registry env) buildID params kind typ steps)
       = map (\<lambda>s. \<lparr>URI = ''pkg:'' @ Image s @ ''@'' @ (case registry env (Image s) of Inl e \<Rightarrow> [] | Inr d \<Rightarrow> d),
                     Digest = [''sha256'' \<mapsto> (case registry env (Image s) of Inl e \<Rightarrow> [] | Inr d \<Rightarrow> d)]\<rparr>) steps"
proof -
  have m: "Materials (attestation (registry env) buildID params kind typ steps)
       = map (\<lambda>s. \<lparr>URI = ''pkg:'' @ Image s @ ''@'' @ (case registry env (Image s) of Inl e \<Rightarrow> [] | Inr d \<Rightarrow> d),
                     Digest = [''sha256'' \<mapsto> (case registry env (Image s) of Inl e \<Rightarrow> [] | Inr d \<Rightarrow> d)]\<rparr>) steps"
    by (simp add: attestation_def materials_eq crane_Digest_def sum.case_distrib [of fst] cong: sum.case_cong)
  have rest: "fst (exec_after_run env source buildID params kind typ steps err status w)
     = (case err of
          Some e \<Rightarrow> Returned (Some e)
        | None \<Rightarrow> if status = StatusError \<or> status = StatusFailing \<or> status = StatusKilled
                  then Exited 1 else Returned None)
   \<and> (err \<noteq> None \<or> status = StatusError \<or> status = StatusFailing \<or> status = StatusKilled \<longrightarrow>
        snd (exec_after_run env source buildID params kind typ steps err status w) = w)
   \<and> (err = None \<and> status \<noteq> StatusError \<and> status \<noteq> StatusFailing \<and> status \<noteq> StatusKilled \<longrightarrow>
        snd (exec_after_run env source buildID params kind typ steps err status w)
          = (case os_Create env (provenance_path source) of
               Some e \<Rightarrow> w\<lparr>errors_logged := errors_logged w @ [(''Error generating attestation,'', e)]\<rparr>
             | None \<Rightarrow>
                 (case json_Encode env (attestation (registry env) buildID params kind typ steps) of
                    Some e \<Rightarrow>
                      w\<lparr>files := (files w)(provenance_path source \<mapsto> []),
                        errors_logged := errors_logged w @ [(''Error generating attestation json,'', e)]\<rparr>
                  | None \<Rightarrow>
                      w\<lparr>files := (files w)(provenance_path source \<mapsto>
                                    [attestation (registry env) buildID params kind typ steps])\<rparr>)))
   \<and> (os_Create env (provenance_path source) = None
        \<and> json_Encode env (attestation (registry env) buildID params kind typ steps) = None \<longrightarrow>
        errors_logged (snd (exec_after_run env source buildID params kind typ steps err status w))
          = errors_logged w)"
    by (auto simp: exec_after_run_def generateStatement_def Let_def split: option.splits)
  from rest m show ?thesis by blast
qed

text \<open>
  Two passing builds at a registry that knows no digest.  When the provenance file cannot
  be created, that failure is the one line logged and the run still returns no error.
  When it can, the run returns no error, nothing is logged, and the statement in the file
  has the material of the step with an empty digest.
\<close>

theorem exec_after_run_outcome_witness:
  "exec_after_run \<lparr>registry = (\<lambda>ref. Inl LookupError), os_Create = (\<lambda>p. Some CreateError), json_Encode = (\<lambda>a. None)\<rparr>
      ''.drone.yml'' 7 Map.empty ''pipeline'' ''docker''
      [\<lparr>Name = ''build'', Image = ''golang'', RunPolicy = RunOnSuccess, ErrPolicy = ErrFail\<rparr>]
      None StatusPassing \<lparr>files = Map.empty, errors_logged = []\<rparr>
   = (Returned None, \<lparr>files = Map.empty, errors_logged = [(''Error generating attestation,'', CreateError)]\<rparr>)
   \<and> fst (exec_after_run \<lparr>registry = (\<lambda>ref. Inl LookupError), os_Create = (\<lambda>p. None), json_Encode = (\<lambda>a. None)\<rparr>
      ''.drone.yml'' 7 Map.empty ''pipeline'' ''docker''
      [\<lparr>Name = ''build'', Image = ''golang'', RunPolicy = RunOnSuccess, ErrPolicy = ErrFail\<rparr>]
      None StatusPassing \<lparr>files = Map.empty, errors_logged = []\<rparr>) = Returned None
   \<and> errors_logged (snd (exec_after_run \<lparr>registry = (\<lambda>ref. Inl LookupError), os_Create = (\<lambda>p. None), json_Encode = (\<lambda>a. None)\<rparr>
      ''.drone.yml'' 7 Map.empty ''pipeline'' ''docker''
      [\<lparr>Name = ''build'', Image = ''golang'', RunPolicy = RunOnSuccess, ErrPolicy = ErrFail\<rparr>]
      None StatusPassing \<lparr>files = Map.empty, errors_logged = []\<rparr>)) = []
   \<and> map_option (map Materials)
       (files (snd (exec_after_run \<lparr>registry = (\<lambda>ref. Inl LookupError), os_Create = (\<lambda>p. None), json_Encode = (\<lambda>a. None)\<rparr>
          ''.drone.yml'' 7 Map.empty ''pipeline'' ''docker''
          [\<lparr>Name = ''build'', Image = ''golang'', RunPolicy = RunOnSuccess, ErrPolicy = ErrFail\<rparr>]
          None StatusPassing \<lparr>files = Map.empty, errors_logged = []\<rparr>)) ''.drone.yml/-provenance.json'')
     = Some [[\<lparr>URI = ''pkg:golang@'', Digest = [''sha256'' \<mapsto> []]\<rparr>]]"
proof -
  let ?env = "\<lparr>registry = (\<lambda>ref. Inl LookupError), os_Create = (\<lambda>p. Some CreateError), json_Encode = (\<lambda>a. None)\<rparr>"
  let ?env' = "\<lparr>registry = (\<lambda>ref. Inl LookupError), os_Create = (\<lambda>p. None), json_Encode = (\<lambda>a. None)\<rparr>"
  let ?steps = "[\<lparr>Name = ''build'', Image = ''golang'', RunPolicy = RunOnSuccess, ErrPolicy = ErrFail\<rparr>]"
  let ?w = "\<lparr>files = Map.empty, errors_logged = []\<rparr>"
  have passing: "StatusPassing \<noteq> StatusError \<and> StatusPassing \<noteq> StatusFailing \<and> StatusPassing \<noteq> StatusKilled"
    by (simp add: StatusPassing_def StatusError_def StatusFailing_def StatusKilled_def)
  have path: "provenance_path ''.drone.yml'' = ''.drone.yml/-provenance.json''"
    by (simp add: provenance_path_def Join_def Dir_def Base_def path_Split_def Clean_def Split_def)
  have a: "exec_after_run ?env ''.drone.yml'' 7 Map.empty ''pipeline'' ''docker'' ?steps None StatusPassing ?w
            = (Returned None, \<lparr>files = Map.empty, errors_logged = [(''Error generating attestation,'', CreateError)]\<rparr>)"
    using exec_after_run_outcome [of ?env "''.drone.yml''" 7 Map.empty "''pipeline''" "''docker''" ?steps None StatusPassing ?w]
      passing
    by (simp add: prod_eq_iff)
  have b: "fst (exec_after_run ?env' ''.drone.yml'' 7 Map.empty ''pipeline'' ''docker'' ?steps None StatusPassing ?w) = Returned None
      \<and> errors_logged (snd (exec_after_run ?env' ''.drone.yml'' 7 Map.empty ''pipeline'' ''docker'' ?steps None StatusPassing ?w)) = []
      \<and> map_option (map Materials)
          (files (snd (exec_after_run ?env' ''.drone.yml'' 7 Map.empty ''pipeline'' ''docker'' ?steps None StatusPassing ?w))
             ''.drone.yml/-provenance.json'')
        = Some [[\<lparr>URI = ''pkg:golang@'', Digest = [''sha256'' \<mapsto> []]\<rparr>]]"
    using exec_after_run_outcome [of ?env' "''.drone.yml''" 7 Map.empty "''pipeline''" "''docker''" ?steps None StatusPassing ?w]
      passing
    by (simp add: path)
  from a b show ?thesis by simp
qed

text \<open>
  Claim C3 as the specification words it asks for a statement after a failing build too.
  A build that ends in the status failure, with every collaborator of the assembly
  working: the process exits with code 1 and no file is written.
\<close>

theorem no_statement_for_failing_build:
  "exec_after_run \<lparr>registry = (\<lambda>ref. Inr ''sha256:0a''), os_Create = (\<lambda>p. None), json_Encode = (\<lambda>a. None)\<rparr>
      ''.drone.yml'' 7 Map.empty ''pipeline'' ''docker''
      [\<lparr>Name = ''build'', Image = ''golang'', RunPolicy = RunOnSuccess, ErrPolicy = ErrFail\<rparr>]
      None StatusFailing \<lparr>files = Map.empty, errors_logged = []\<rparr>
   = (Exited 1, \<lparr>files = Map.empty, errors_logged = []\<rparr>)"
  by (simp add: exec_after_run_def)


text \<open>
  Claim C2, as the program has it.  Selection changes nothing but run policies: the step
  list after the three phases is the list before them, step by step and in the same order,
  once run policies are disregarded.  The provenance statement is assembled from that whole
  list: its build configuration holds the selected list itself, steps set to \<open>RunNever\<close>
  included, and its materials name the image of every step.  The stage roster does not
  see the whole list: it holds the names of the steps that are not set to \<open>RunNever\<close>, in
  their order, numbered from 1 without gaps.
\<close>

theorem selection_keeps_the_step_list:
  "map (\<lambda>s. s\<lparr>RunPolicy := RunOnSuccess\<rparr>) (select_steps incl excl resumeAt steps)
     = map (\<lambda>s. s\<lparr>RunPolicy := RunOnSuccess\<rparr>) steps
   \<and> length (select_steps incl excl resumeAt steps) = length steps
   \<and> BuildConfig (attestation reg buildID params kind typ (select_steps incl excl resumeAt steps)) ''steps''
       = Some (select_steps incl excl resumeAt steps)
   \<and> map URI (Materials (attestation reg buildID params kind typ (select_steps incl excl resumeAt steps)))
       = map (\<lambda>s. ''pkg:'' @ Image s @ ''@'' @ fst (crane_Digest reg (Image s))) steps
   \<and> map StepName (roster_loop sid [] (select_steps incl excl resumeAt steps))
       = map Name (filter (\<lambda>s. RunPolicy s \<noteq> RunNever) (select_steps incl excl resumeAt steps))
   \<and> map Number (roster_loop sid [] (select_steps incl excl resumeAt steps))
       = map int [1 ..< Suc (length (filter (\<lambda>s. RunPolicy s \<noteq> RunNever)
                                        (select_steps incl excl resumeAt steps)))]"
proof -
  let ?sel = "select_steps incl excl resumeAt steps"
  have rest: "map (\<lambda>s. s\<lparr>RunPolicy := RunOnSuccess\<rparr>) ?sel = map (\<lambda>s. s\<lparr>RunPolicy := RunOnSuccess\<rparr>) steps"
    by (rule select_keeps_rest)
  have "map Image ?sel = map (Image \<circ> (\<lambda>s. s\<lparr>RunPolicy := RunOnSuccess\<rparr>)) ?sel"
    by (simp add: comp_def)
  also have "\<dots> = map Image (map (\<lambda>s. s\<lparr>RunPolicy := RunOnSuccess\<rparr>) steps)"
    by (simp only: rest map_map [symmetric])
  finally have images: "map Image ?sel = map Image steps"
    by (simp add: comp_def)
  have "map URI (materials reg ?sel)
          = map (\<lambda>i. ''pkg:'' @ i @ ''@'' @ fst (crane_Digest reg i)) (map Image ?sel)"
    by (simp add: materials_eq comp_def)
  then have uris: "map URI (materials reg ?sel)
          = map (\<lambda>s. ''pkg:'' @ Image s @ ''@'' @ fst (crane_Digest reg (Image s))) steps"
    by (simp only: images) (simp add: comp_def)
  show ?thesis
    by (simp add: rest length_select_steps attestation_def uris roster_names roster_numbers)
qed


text \<open>
  Claim C2 as the specification words it has the roster hold the steps set to \<open>RunNever\<close>
  as well.  With the include list \<open>build\<close> and the steps clone, build and test, the step
  test is set to \<open>RunNever\<close> and is missing from the roster.
\<close>

theorem roster_drops_never_steps:
  "map RunPolicy (select_steps [''build''] [] []
      [\<lparr>Name = ''clone'', Image = ''drone/git'', RunPolicy = RunOnSuccess, ErrPolicy = ErrFail\<rparr>,
       \<lparr>Name = ''build'', Image = ''golang'', RunPolicy = RunOnSuccess, ErrPolicy = ErrFail\<rparr>,
       \<lparr>Name = ''test'', Image = ''golang'', RunPolicy = RunOnSuccess, ErrPolicy = ErrFail\<rparr>])
     = [RunOnSuccess, RunOnSuccess, RunNever]
   \<and> map StepName (roster_loop 1 [] (select_steps [''build''] [] []
      [\<lparr>Name = ''clone'', Image = ''drone/git'', RunPolicy = RunOnSuccess, ErrPolicy = ErrFail\<rparr>,
       \<lparr>Name = ''build'', Image = ''golang'', RunPolicy = RunOnSuccess, ErrPolicy = ErrFail\<rparr>,
       \<lparr>Name = ''test'', Image = ''golang'', RunPolicy = RunOnSuccess, ErrPolicy = ErrFail\<rparr>]))
     = [''clone'', ''build'']"
  by (simp add: select_steps_def include_phase_def include_step_def exclude_phase_def resume_phase_def)

end
